theory Spec2Isabelle
  imports Complex_Main
begin

section \<open>The vertex shader of the particle field\<close>

text \<open>
  Source: the GLSL program \<^verbatim>\<open>vertexShader\<close> in \<^verbatim>\<open>src/components/GalaxyCanvas.tsx\<close>.
  GLSL \<^verbatim>\<open>float\<close> and JavaScript \<^verbatim>\<open>number\<close> values are modelled as real numbers and
  the definitions compute in exact arithmetic. The wrapped radius and the scale
  assignment are given a second time with every operation rounded (\<open>radius32\<close>,
  \<open>scaleOfPinch64\<close>).

  The three GLSL built-ins follow the definitions of the GLSL ES specification:
  \<^verbatim>\<open>mod(x, y) = x - y * floor(x / y)\<close>, \<^verbatim>\<open>clamp(x, a, b) = min(max(x, a), b)\<close> and
  \<^verbatim>\<open>smoothstep(e0, e1, x) = t * t * (3 - 2 * t)\<close> with \<^verbatim>\<open>t = clamp((x - e0) / (e1 - e0), 0, 1)\<close>.
\<close>

definition glsl_mod :: "real \<Rightarrow> real \<Rightarrow> real" where
  "glsl_mod a b = a - b * of_int \<lfloor>a / b\<rfloor>"

definition glsl_clamp :: "real \<Rightarrow> real \<Rightarrow> real \<Rightarrow> real" where
  "glsl_clamp a lo hi = min (max a lo) hi"

definition smoothstep :: "real \<Rightarrow> real \<Rightarrow> real \<Rightarrow> real" where
  "smoothstep edge0 edge1 a =
     (let t = glsl_clamp ((a - edge0) / (edge1 - edge0)) 0 1 in t * t * (3 - 2 * t))"

definition maxRadius :: real where
  "maxRadius = 6.0"

text \<open>
  Of the shader's outputs the model keeps the wrapped radius, the growth factor of the
  point size and the alpha; position and point size depend on the camera matrices.

  \<^verbatim>\<open>float t = uTime * aSpeed * 0.8 + aOffset; float r = mod(t, maxRadius);\<close>
\<close>

definition travel :: "real \<Rightarrow> real \<Rightarrow> real \<Rightarrow> real" where
  "travel uTime aSpeed aOffset = uTime * aSpeed * 0.8 + aOffset"

definition radius :: "real \<Rightarrow> real \<Rightarrow> real \<Rightarrow> real" where
  "radius uTime aSpeed aOffset = glsl_mod (travel uTime aSpeed aOffset) maxRadius"

text \<open>\<^verbatim>\<open>float growth = smoothstep(0.0, 1.0, dist);\<close> with \<^verbatim>\<open>dist = r\<close>.\<close>

definition growth :: "real \<Rightarrow> real" where
  "growth r = smoothstep 0.0 1.0 r"

text \<open>
  \<^verbatim>\<open>float normalizedR = r / maxRadius;\<close>
  \<^verbatim>\<open>float fadeIn = smoothstep(0.0, 0.1, normalizedR);\<close>
  \<^verbatim>\<open>float fadeOut = 1.0 - smoothstep(0.7, 1.0, normalizedR);\<close>
  \<^verbatim>\<open>vAlpha = fadeIn * fadeOut;\<close>
\<close>

definition fadeIn :: "real \<Rightarrow> real" where
  "fadeIn normalizedR = smoothstep 0.0 0.1 normalizedR"

definition fadeOut :: "real \<Rightarrow> real" where
  "fadeOut normalizedR = 1.0 - smoothstep 0.7 1.0 normalizedR"

definition alpha :: "real \<Rightarrow> real" where
  "alpha r = (let normalizedR = r / maxRadius in fadeIn normalizedR * fadeOut normalizedR)"

definition vAlpha :: "real \<Rightarrow> real \<Rightarrow> real \<Rightarrow> real" where
  "vAlpha uTime aSpeed aOffset = alpha (radius uTime aSpeed aOffset)"

section \<open>Rounded arithmetic\<close>

text \<open>
  Rounding to the nearest number with a significand of \<open>p\<close> bits, ties to the even
  significand: \<open>p = 24\<close> is the shader's \<^verbatim>\<open>float\<close>, \<open>p = 53\<close> a JavaScript
  \<^verbatim>\<open>number\<close>. The exponent is unbounded: overflow, subnormal numbers, infinities and NaN
  are not modelled.
\<close>

definition round_even :: "real \<Rightarrow> int" where
  "round_even y =
     (let f = \<lfloor>y\<rfloor>; d = y - of_int f
      in if d < 1 / 2 then f else if 1 / 2 < d then f + 1 else if even f then f else f + 1)"

definition fl :: "nat \<Rightarrow> real \<Rightarrow> real" where
  "fl p a =
     (if a = 0 then 0
      else (let e = \<lfloor>log 2 \<bar>a\<bar>\<rfloor>; u = 2 powi (e - int p + 1)
            in of_int (round_even (a / u)) * u))"


definition binary64 :: "real \<Rightarrow> real" where
  "binary64 = fl 53"




section \<open>Particle groups\<close>

text \<open>
  Source: \<^verbatim>\<open>initScene\<close>. An entry of \<^verbatim>\<open>items\<close> has the fields \<^verbatim>\<open>type\<close>, \<^verbatim>\<open>value\<close>
  and \<^verbatim>\<open>color\<close>. \<^verbatim>\<open>totalParticles\<close> is a JavaScript number, and so is
  \<^verbatim>\<open>count = totalParticles / items.length\<close>: the division is not an integer division.
\<close>

record item =
  itype :: string
  ivalue :: string
  color :: string

definition totalParticles :: real where
  "totalParticles = 1400"

definition items :: "item list" where
  "items =
    [\<lparr>itype = ''text'', ivalue = ''H'', color = ''#FFD700''\<rparr>,
     \<lparr>itype = ''text'', ivalue = ''u'', color = ''#FFD700''\<rparr>,
     \<lparr>itype = ''text'', ivalue = ''a'', color = ''#FFD700''\<rparr>,
     \<lparr>itype = ''text'', ivalue = ''n'', color = ''#FFD700''\<rparr>,
     \<lparr>itype = ''text'', ivalue = ''g'', color = ''#FFD700''\<rparr>,
     \<lparr>itype = ''text'', ivalue = ''X'', color = ''#FF69B4''\<rparr>,
     \<lparr>itype = ''text'', ivalue = ''i'', color = ''#FF69B4''\<rparr>,
     \<lparr>itype = ''text'', ivalue = ''n'', color = ''#FF69B4''\<rparr>,
     \<lparr>itype = ''text'', ivalue = ''Y'', color = ''#00FFFF''\<rparr>,
     \<lparr>itype = ''text'', ivalue = ''i'', color = ''#00FFFF''\<rparr>,
     \<lparr>itype = ''text'', ivalue = ''n'', color = ''#00FFFF''\<rparr>,
     \<lparr>itype = ''text'', ivalue = ''g'', color = ''#00FFFF''\<rparr>,
     \<lparr>itype = ''shape'', ivalue = ''star'', color = ''#FF8C00''\<rparr>,
     \<lparr>itype = ''shape'', ivalue = ''heart'', color = ''#FF0055''\<rparr>,
     \<lparr>itype = ''shape'', ivalue = ''circle'', color = ''#FFFFFF''\<rparr>,
     \<lparr>itype = ''shape'', ivalue = ''diamond'', color = ''#9D00FF''\<rparr>,
     \<lparr>itype = ''shape'', ivalue = ''star'', color = ''#32CD32''\<rparr>,
     \<lparr>itype = ''shape'', ivalue = ''circle'', color = ''#00BFFF''\<rparr>]"

text \<open>
  The three arrays filled for one group. \<^verbatim>\<open>directions\<close> takes three numbers for each
  particle, the other two take one.
\<close>

record attributes =
  directions :: "real list"
  offsets :: "real list"
  speeds :: "real list"

text \<open>
  The loop \<^verbatim>\<open>for (let i = 0; i < count; i++)\<close>. \<open>rnd\<close> lists the values that the
  successive calls of \<^verbatim>\<open>Math.random()\<close> return, \<open>k\<close> is the number of calls made so far.
\<close>

function fillParticles :: "(nat \<Rightarrow> real) \<Rightarrow> real \<Rightarrow> nat \<Rightarrow> nat \<Rightarrow> attributes \<Rightarrow> nat \<times> attributes" where
  "fillParticles rnd cnt i k g =
     (if real i < cnt then
        (let u = rnd k;
             v = rnd (k + 1);
             theta = 2 * pi * u;
             phi = arccos (2 * v - 1);
             x = sin phi * cos theta;
             y = sin phi * sin theta;
             z = cos phi
         in fillParticles rnd cnt (Suc i) (k + 4)
              (g\<lparr>directions := directions g @ [x, y, z],
                 offsets := offsets g @ [rnd (k + 2) * 6.0],
                 speeds := speeds g @ [0.3 + rnd (k + 3) * 0.4]\<rparr>))
      else (k, g))"
  by pat_completeness auto
termination
proof (relation "measure (\<lambda>(rnd, cnt, i, k, g). nat \<lceil>cnt\<rceil> - i)")
  show "wf (measure (\<lambda>(rnd, cnt, i, k, g). nat \<lceil>cnt\<rceil> - i))"
    by simp
next
  fix rnd :: "nat \<Rightarrow> real" and cnt :: real and i k :: nat and g :: attributes
    and u v theta phi x y z :: real
  assume "real i < cnt"
  then have "int i < \<lceil>cnt\<rceil>"
    by (simp add: less_ceiling_iff)
  then have "i < nat \<lceil>cnt\<rceil>"
    by linarith
  then show "((rnd, cnt, Suc i, k + 4,
        g\<lparr>directions := directions g @ [x, y, z], offsets := offsets g @ [rnd (k + 2) * 6.0],
          speeds := speeds g @ [0.3 + rnd (k + 3) * 0.4]\<rparr>), rnd, cnt, i, k, g)
      \<in> measure (\<lambda>(rnd, cnt, i, k, g). nat \<lceil>cnt\<rceil> - i)"
    by simp
qed

declare fillParticles.simps [simp del]

text \<open>
  \<^verbatim>\<open>items.forEach\<close>: one group for each item. A text item draws one more random number,
  for its font; textures and materials are not modelled.
\<close>

fun buildGroups :: "(nat \<Rightarrow> real) \<Rightarrow> real \<Rightarrow> nat \<Rightarrow> item list \<Rightarrow> attributes list" where
  "buildGroups rnd cnt k [] = []"
| "buildGroups rnd cnt k (it # rest) =
     (let (k1, g) = fillParticles rnd cnt 0 k \<lparr>directions = [], offsets = [], speeds = []\<rparr>;
          k2 = (if itype it = ''text'' then k1 + 1 else k1)
      in g # buildGroups rnd cnt k2 rest)"

definition initScene :: "(nat \<Rightarrow> real) \<Rightarrow> attributes list" where
  "initScene rnd = buildGroups rnd (totalParticles / real (length items)) 0 items"

text \<open>
  The number of points of a group is the count of its \<^verbatim>\<open>position\<close> attribute, which is
  built from \<^verbatim>\<open>directions\<close> with item size 3.
\<close>

definition pointCount :: "attributes \<Rightarrow> nat" where
  "pointCount g = length (directions g) div 3"


section \<open>Interaction state of the component\<close>

text \<open>
  The closure variables of the effect in \<^verbatim>\<open>GalaxyCanvas\<close> and the React state of the
  component, as one record. \<^verbatim>\<open>handLandmarker\<close> and \<^verbatim>\<open>videoRef\<close> record whether the
  reference is non-null, \<^verbatim>\<open>uTime_value\<close> is the value every \<^verbatim>\<open>uTime\<close> uniform
  holds. \<^verbatim>\<open>groupScale\<close>, \<^verbatim>\<open>groupRotationX\<close> and \<^verbatim>\<open>groupRotationY\<close> are
  the scale and rotation of \<^verbatim>\<open>manipulationGroup\<close>.

  Five fields describe the event loop rather than a variable of the source:
  \<^verbatim>\<open>statusLog\<close> lists the arguments of the calls of \<^verbatim>\<open>setStatus\<close> in order,
  \<^verbatim>\<open>detectCalls\<close> counts the calls of \<^verbatim>\<open>detectForVideo\<close>, \<^verbatim>\<open>visionPending\<close> says that
  \<^verbatim>\<open>startVision\<close> is still awaiting, \<^verbatim>\<open>loadedDataListener\<close> that the listener is
  attached, and \<^verbatim>\<open>predictPending\<close> counts the animation-frame requests for
  \<^verbatim>\<open>predictWebcam\<close> that have not run yet.
\<close>

record HandLandmark =
  lm_x :: real
  lm_y :: real
  lm_z :: real

text \<open>\<^verbatim>\<open>results.landmarks\<close>: \<open>None\<close> is a missing (falsy) field.\<close>

record VisionResult =
  landmarks :: "HandLandmark list list option"

text \<open>
  What one call of \<^verbatim>\<open>predictWebcam\<close> reads from outside: the video's
  \<^verbatim>\<open>currentTime\<close> and the value \<^verbatim>\<open>detectForVideo\<close> returns for that frame when it is called.
\<close>

record video_frame =
  currentTime :: real
  results :: VisionResult

record galaxy =
  handLandmarker :: bool
  videoRef :: bool
  lastVideoTime :: real
  targetScale :: real
  currentScale :: real
  targetTiltX :: real
  targetTiltY :: real
  currentTiltX :: real
  currentTiltY :: real
  status :: string
  isLoading :: bool
  uTime_value :: real
  groupScale :: real
  groupRotationX :: real
  groupRotationY :: real
  statusLog :: "string list"
  detectCalls :: nat
  visionPending :: bool
  loadedDataListener :: bool
  predictPending :: nat

definition INITIALIZING :: string where "INITIALIZING = ''INITIALIZING...''"
definition SYSTEM_READY :: string where "SYSTEM_READY = ''SYSTEM READY''"
definition CAMERA_ERROR :: string where "CAMERA_ERROR = ''CAMERA ERROR''"
definition HAND_LOCKED :: string where "HAND_LOCKED = ''HAND LOCKED''"
definition SCANNING :: string where "SCANNING = ''SCANNING SPACE...''"

definition setStatus :: "string \<Rightarrow> galaxy \<Rightarrow> galaxy" where
  "setStatus v s = s\<lparr>status := v, statusLog := statusLog s @ [v]\<rparr>"

text \<open>
  An uncaught exception ends the running callback; what it wrote before stays written.
\<close>

datatype error = TypeError

datatype outcome = Returned galaxy | Thrown error galaxy

fun state_of :: "outcome \<Rightarrow> galaxy" where
  "state_of (Returned s) = s"
| "state_of (Thrown e s) = s"

text \<open>JavaScript's \<^verbatim>\<open>xs[i]\<close>: \<open>None\<close> is \<^verbatim>\<open>undefined\<close>, whose fields cannot be read.\<close>

definition at_index :: "'a list \<Rightarrow> nat \<Rightarrow> 'a option" where
  "at_index xs i = (if i < length xs then Some (xs ! i) else None)"

subsection \<open>\<^verbatim>\<open>predictWebcam\<close>\<close>

text \<open>
  \<^verbatim>\<open>Math.sqrt(Math.pow(thumb.x - indexFinger.x, 2) + Math.pow(thumb.y - indexFinger.y, 2))\<close>
\<close>

definition pinchDist :: "HandLandmark \<Rightarrow> HandLandmark \<Rightarrow> real" where
  "pinchDist thumb indexFinger =
     sqrt ((lm_x thumb - lm_x indexFinger)\<^sup>2 + (lm_y thumb - lm_y indexFinger)\<^sup>2)"

text \<open>
  \<^verbatim>\<open>const clampDist = Math.max(0.02, Math.min(0.3, dist));\<close>
  \<^verbatim>\<open>targetScale = 0.5 + ((clampDist - 0.02) / 0.28) * 4.5;\<close>
\<close>

definition clampDist :: "real \<Rightarrow> real" where
  "clampDist d = max 0.02 (min 0.3 d)"

definition scaleOfPinch :: "real \<Rightarrow> real" where
  "scaleOfPinch d = 0.5 + ((clampDist d - 0.02) / 0.28) * 4.5"

text \<open>The same two lines with every constant and operation rounded to a \<^verbatim>\<open>number\<close>.\<close>

definition clampDist64 :: "real \<Rightarrow> real" where
  "clampDist64 d = max (binary64 0.02) (min (binary64 0.3) d)"

definition scaleOfPinch64 :: "real \<Rightarrow> real" where
  "scaleOfPinch64 d =
     binary64 (binary64 0.5
       + binary64 (binary64 (binary64 (clampDist64 d - binary64 0.02) / binary64 0.28)
                   * binary64 4.5))"

definition requestPredict :: "galaxy \<Rightarrow> galaxy" where
  "requestPredict s = s\<lparr>predictPending := Suc (predictPending s)\<rparr>"

definition predictWebcam :: "video_frame \<Rightarrow> galaxy \<Rightarrow> outcome" where
  "predictWebcam f s =
     (if \<not> handLandmarker s \<or> \<not> videoRef s then Returned s
      else if currentTime f \<noteq> lastVideoTime s then
        (let s1 = s\<lparr>lastVideoTime := currentTime f, detectCalls := Suc (detectCalls s)\<rparr> in
         case landmarks (results f) of
           Some (lms # others) \<Rightarrow>
             (let s2 = setStatus HAND_LOCKED s1 in
              case (at_index lms 4, at_index lms 8) of
                (Some thumb, Some indexFinger) \<Rightarrow>
                  (let dist = pinchDist thumb indexFinger;
                       s3 = s2\<lparr>targetScale := scaleOfPinch dist\<rparr> in
                   case at_index lms 9 of
                     Some handCenter \<Rightarrow>
                       Returned (requestPredict
                         (s3\<lparr>targetTiltY := (lm_x handCenter - 0.5) * - 3.0,
                             targetTiltX := (lm_y handCenter - 0.5) * 3.0\<rparr>))
                   | None \<Rightarrow> Thrown TypeError s3)
              | _ \<Rightarrow> Thrown TypeError s2)
         | _ \<Rightarrow> Returned (requestPredict (setStatus SCANNING s1)))
      else Returned (requestPredict s))"

subsection \<open>\<^verbatim>\<open>animate\<close>\<close>

definition lerpFactor :: real where
  "lerpFactor = 0.1"

text \<open>
  \<^verbatim>\<open>current += (target - current) * lerpFactor\<close>, as a function of the old value. Of
  \<^verbatim>\<open>animate\<close> the model keeps the time written to the uniforms, the three smoothing
  steps and the transform of the manipulation group; the rotations of the planet and
  the render call are left out.
\<close>

definition lerpStep :: "real \<Rightarrow> real \<Rightarrow> real" where
  "lerpStep target current = current + (target - current) * lerpFactor"

definition animate :: "real \<Rightarrow> galaxy \<Rightarrow> galaxy" where
  "animate now s =
     (let time = now * 0.001;
          scale = lerpStep (targetScale s) (currentScale s);
          tiltX = lerpStep (targetTiltX s) (currentTiltX s);
          tiltY = lerpStep (targetTiltY s) (currentTiltY s)
      in s\<lparr>uTime_value := time, currentScale := scale, currentTiltX := tiltX, currentTiltY := tiltY,
            groupScale := scale, groupRotationX := tiltX, groupRotationY := tiltY\<rparr>)"

subsection \<open>\<^verbatim>\<open>startVision\<close> and the event loop\<close>

text \<open>
  How the two awaits of \<^verbatim>\<open>startVision\<close> end: \<^verbatim>\<open>initializeHandLandmarker\<close> rejects,
  \<^verbatim>\<open>getUserMedia\<close> rejects, or both resolve.
\<close>

datatype acquisition = LandmarkerFailed | StreamFailed | StreamAcquired

definition startVision :: "acquisition \<Rightarrow> galaxy \<Rightarrow> galaxy" where
  "startVision a s =
     (case a of
        LandmarkerFailed \<Rightarrow> (setStatus CAMERA_ERROR s)\<lparr>isLoading := False\<rparr>
      | StreamFailed \<Rightarrow> (setStatus CAMERA_ERROR (s\<lparr>handLandmarker := True\<rparr>))\<lparr>isLoading := False\<rparr>
      | StreamAcquired \<Rightarrow>
          (let s1 = s\<lparr>handLandmarker := True\<rparr> in
           if videoRef s1 then s1\<lparr>loadedDataListener := True\<rparr> else s1))"

text \<open>The listener of \<^verbatim>\<open>loadeddata\<close>.\<close>

definition onLoadedData :: "video_frame \<Rightarrow> galaxy \<Rightarrow> outcome" where
  "onLoadedData f s = predictWebcam f (setStatus SYSTEM_READY (s\<lparr>isLoading := False\<rparr>))"

text \<open>
  The values the closure variables and the React state start with, and the effect body:
  \<^verbatim>\<open>startVision()\<close> runs up to its first await, \<^verbatim>\<open>animate()\<close> runs once. The effect
  returns early unless \<^verbatim>\<open>videoRef.current\<close> is set.
\<close>

definition initial :: galaxy where
  "initial =
     \<lparr>handLandmarker = False, videoRef = True, lastVideoTime = - 1,
      targetScale = 1.0, currentScale = 1.0,
      targetTiltX = 0, targetTiltY = 0, currentTiltX = 0, currentTiltY = 0,
      status = INITIALIZING, isLoading = True, uTime_value = 0,
      groupScale = 1, groupRotationX = 0, groupRotationY = 0,
      statusLog = [], detectCalls = 0, visionPending = False,
      loadedDataListener = False, predictPending = 0\<rparr>"

definition mount :: "real \<Rightarrow> galaxy" where
  "mount now = animate now (initial\<lparr>visionPending := True\<rparr>)"

text \<open>
  One callback of the event loop. A callback that is not registered does not run:
  the settlement of \<^verbatim>\<open>startVision\<close> happens once, \<^verbatim>\<open>loadeddata\<close> is heard only with
  the listener attached, and \<^verbatim>\<open>predictWebcam\<close> runs as an animation-frame callback only
  when it was requested. \<^verbatim>\<open>animate\<close> requests itself first thing in every call.
\<close>

datatype event =
    VisionSettled acquisition
  | LoadedData video_frame
  | PredictFrame video_frame
  | AnimateFrame real

fun dispatch :: "event \<Rightarrow> galaxy \<Rightarrow> galaxy" where
  "dispatch (VisionSettled a) s =
     (if visionPending s then startVision a (s\<lparr>visionPending := False\<rparr>) else s)"
| "dispatch (LoadedData f) s =
     (if loadedDataListener s then state_of (onLoadedData f s) else s)"
| "dispatch (PredictFrame f) s =
     (if 0 < predictPending s
      then state_of (predictWebcam f (s\<lparr>predictPending := predictPending s - 1\<rparr>))
      else s)"
| "dispatch (AnimateFrame now) s = animate now s"

fun run :: "event list \<Rightarrow> galaxy \<Rightarrow> galaxy" where
  "run [] s = s"
| "run (e # es) s = run es (dispatch e s)"

text \<open>
  A sequence of invocations of \<^verbatim>\<open>predictWebcam\<close>, one for each of the given frames, in
  order.
\<close>

fun predictAll :: "video_frame list \<Rightarrow> galaxy \<Rightarrow> galaxy" where
  "predictAll [] s = s"
| "predictAll (f # fs) s = predictAll fs (state_of (predictWebcam f s))"

section \<open>Sample inputs\<close>

text \<open>
  A hand of 21 landmarks with the thumb tip (index 4) at \<open>(pinch, 0)\<close>, the index
  fingertip (index 8) at the origin and the palm centre (index 9) at \<open>(px, py)\<close>; a
  frame in which the detector finds that hand, a frame in which it finds none, and the
  component after a successful \<^verbatim>\<open>startVision\<close>.
\<close>

definition landmark :: "real \<Rightarrow> real \<Rightarrow> HandLandmark" where
  "landmark a b = \<lparr>lm_x = a, lm_y = b, lm_z = 0\<rparr>"

definition hand :: "real \<Rightarrow> real \<Rightarrow> real \<Rightarrow> HandLandmark list" where
  "hand pinch px py =
     (replicate 21 (landmark 0 0))[4 := landmark pinch 0, 8 := landmark 0 0, 9 := landmark px py]"

text \<open>
  A hand of 21 landmarks with the thumb tip at \<open>(tx, ty)\<close> and the index fingertip at
  \<open>(ix, iy)\<close>.
\<close>

definition pinching_hand :: "real \<Rightarrow> real \<Rightarrow> real \<Rightarrow> real \<Rightarrow> HandLandmark list" where
  "pinching_hand tx ty ix iy =
     (replicate 21 (landmark 0 0))[4 := landmark tx ty, 8 := landmark ix iy]"

definition frame_with :: "real \<Rightarrow> HandLandmark list \<Rightarrow> video_frame" where
  "frame_with t lms = \<lparr>currentTime = t, results = \<lparr>landmarks = Some [lms]\<rparr>\<rparr>"

definition frame_without :: "real \<Rightarrow> video_frame" where
  "frame_without t = \<lparr>currentTime = t, results = \<lparr>landmarks = Some []\<rparr>\<rparr>"

definition ready :: galaxy where
  "ready = dispatch (VisionSettled StreamAcquired) (mount 0)"

section \<open>Invariants\<close>

text \<open>The three scale values of the interaction state lie in \<open>[0.5, 5.0]\<close>.\<close>

definition scale_bounded :: "galaxy \<Rightarrow> bool" where
  "scale_bounded s \<longleftrightarrow>
     0.5 \<le> targetScale s \<and> targetScale s \<le> 5.0
     \<and> 0.5 \<le> currentScale s \<and> currentScale s \<le> 5.0
     \<and> 0.5 \<le> groupScale s \<and> groupScale s \<le> 5.0"

text \<open>No callback of the detection side is registered or pending.\<close>

definition halted :: "galaxy \<Rightarrow> bool" where
  "halted s \<longleftrightarrow> \<not> visionPending s \<and> \<not> loadedDataListener s \<and> predictPending s = 0"

section \<open>Properties of the rounded arithmetic\<close>

lemma floor_log2_eq:
  assumes "a \<noteq> 0" "2 powi e \<le> \<bar>a\<bar>" "\<bar>a\<bar> < 2 powi (e + 1)"
  shows "\<lfloor>log 2 \<bar>a\<bar>\<rfloor> = e"
proof -
  have pos: "0 < \<bar>a\<bar>" using assms(1) by simp
  have "(2::real) powr of_int e = 2 powi e"
    by (simp add: powr_real_of_int')
  moreover have "(2::real) powr (of_int e + 1) = 2 powi (e + 1)"
    using powr_real_of_int'[of 2 "e + 1"] by simp
  ultimately have "2 powr (of_int e) \<le> \<bar>a\<bar> \<and> \<bar>a\<bar> < 2 powr (of_int e + 1)"
    using assms by simp
  then show ?thesis
    using floor_log_eq_powr_iff[OF pos, of 2 e] by simp
qed

lemma fl_eval:
  assumes "a \<noteq> 0" "2 powi e \<le> \<bar>a\<bar>" "\<bar>a\<bar> < 2 powi (e + 1)"
  shows "fl p a = of_int (round_even (a / 2 powi (e - int p + 1))) * 2 powi (e - int p + 1)"
  using assms(1) by (simp add: fl_def floor_log2_eq[OF assms] Let_def)







lemma binary64_constants:
  "binary64 0.3 = 5404319552844595 / 2 ^ 54"
  "binary64 0.02 = 5764607523034235 / 2 ^ 58"
  "binary64 0.28 = 5044031582654956 / 2 ^ 54"
  "binary64 4.5 = 4.5"
  "binary64 0.5 = 0.5"
  "binary64 0 = 0"
  unfolding binary64_def
  subgoal by (subst fl_eval[where e = "- 2"]) (simp_all add: round_even_def)
  subgoal by (subst fl_eval[where e = "- 6"]) (simp_all add: round_even_def)
  subgoal by (subst fl_eval[where e = "- 2"]) (simp_all add: round_even_def)
  subgoal by (subst fl_eval[where e = "2"]) (simp_all add: round_even_def)
  subgoal by (subst fl_eval[where e = "- 1"]) (simp_all add: round_even_def)
  subgoal by (simp add: fl_def)
  done

lemma binary64_steps:
  "binary64 (5404319552844595 / 2 ^ 54 - 5764607523034235 / 2 ^ 58) = 5044031582654955 / 2 ^ 54"
  "binary64 ((5044031582654955 / 2 ^ 54) / (5044031582654956 / 2 ^ 54)) = 9007199254740990 / 2 ^ 53"
  "binary64 (9007199254740990 / 2 ^ 53 * 4.5) = 5066549580791807 / 2 ^ 50"
  "binary64 (0.5 + 5066549580791807 / 2 ^ 50) = 5629499534213119 / 2 ^ 50"
  unfolding binary64_def
  subgoal by (subst fl_eval[where e = "- 2"]) (simp_all add: round_even_def)
  subgoal by (subst fl_eval[where e = "- 1"]) (simp_all add: round_even_def)
  subgoal by (subst fl_eval[where e = "2"]) (simp_all add: round_even_def)
  subgoal by (subst fl_eval[where e = "2"]) (simp_all add: round_even_def)
  done

lemma scaleOfPinch64_top:
  assumes "binary64 0.3 \<le> d"
  shows "scaleOfPinch64 d = 5629499534213119 / 2 ^ 50"
proof -
  have le: "binary64 0.02 \<le> binary64 0.3"
    unfolding binary64_constants by simp
  have "clampDist64 d = binary64 0.3"
    using assms le by (simp add: clampDist64_def min_def max_def)
  then show ?thesis
    by (simp only: scaleOfPinch64_def binary64_constants binary64_steps)
qed

lemma scaleOfPinch64_bottom:
  assumes "d \<le> binary64 0.02"
  shows "scaleOfPinch64 d = 0.5"
proof -
  have le: "binary64 0.02 \<le> binary64 0.3"
    unfolding binary64_constants by simp
  have "clampDist64 d = binary64 0.02"
    using assms le by (simp add: clampDist64_def min_def max_def)
  then show ?thesis
    by (simp only: scaleOfPinch64_def diff_self binary64_constants(6) div_0 mult_zero_left
        add_0_right binary64_constants(5))
qed





section \<open>The particle lifecycle\<close>


















lemma smoothstep_range: "0 \<le> smoothstep e0 e1 a \<and> smoothstep e0 e1 a \<le> 1"
proof -
  define t where "t = glsl_clamp ((a - e0) / (e1 - e0)) 0 1"
  have t: "0 \<le> t" "t \<le> 1"
    by (simp_all add: t_def glsl_clamp_def)
  have "1 - t * t * (3 - 2 * t) = (1 - t) * (1 - t) * (1 + 2 * t)"
    by (simp add: algebra_simps)
  moreover have "0 \<le> (1 - t) * (1 - t) * (1 + 2 * t)"
    using t by simp
  moreover have "0 \<le> t * t * (3 - 2 * t)"
    using t by simp
  ultimately show ?thesis
    by (simp add: smoothstep_def t_def[symmetric] Let_def)
qed

lemma alpha_le_1: "alpha r \<le> 1"
proof -
  have "fadeIn (r / maxRadius) \<le> 1" "0 \<le> fadeIn (r / maxRadius)"
       "fadeOut (r / maxRadius) \<le> 1" "0 \<le> fadeOut (r / maxRadius)"
    using smoothstep_range by (simp_all add: fadeIn_def fadeOut_def)
  then show ?thesis
    unfolding alpha_def Let_def by (simp add: mult_le_one)
qed

lemma isCont_clamp:
  assumes "isCont f r"
  shows "isCont (\<lambda>a. glsl_clamp (f a) 0 1) r"
  unfolding glsl_clamp_def using assms
  by (intro continuous_min continuous_max continuous_const)

lemma isCont_smoothstep:
  assumes "c \<noteq> 0" "e0 \<noteq> e1"
  shows "isCont (\<lambda>a. smoothstep e0 e1 (a / c)) r"
proof -
  have "isCont (\<lambda>a. (a / c - e0) / (e1 - e0)) r"
    using assms by (intro continuous_intros) simp_all
  from isCont_clamp[OF this]
  have c: "isCont (\<lambda>a. glsl_clamp ((a / c - e0) / (e1 - e0)) 0 1) r" .
  show ?thesis
    unfolding smoothstep_def Let_def
    by (intro continuous_mult continuous_diff continuous_const c)
qed

lemma isCont_alpha: "isCont alpha r"
  unfolding alpha_def fadeIn_def fadeOut_def Let_def
  by (intro continuous_mult continuous_diff continuous_const isCont_smoothstep)
     (simp_all add: maxRadius_def)

lemmas alpha_unfold =
  alpha_def fadeIn_def fadeOut_def smoothstep_def glsl_clamp_def maxRadius_def

lemma alpha_at_maxRadius: "alpha maxRadius = 0"
  by (simp add: alpha_unfold)

lemma alpha_tendsto: "(alpha \<longlongrightarrow> 0) (at_left maxRadius)"
proof -
  have "(alpha \<longlongrightarrow> alpha maxRadius) (at maxRadius)"
    using isCont_alpha by (simp add: isCont_def)
  then show ?thesis
    by (simp add: alpha_at_maxRadius filterlim_at_split)
qed

text \<open>
  C2. The alpha of a particle at wrapped radius \<open>r\<close> is the product of a fade-in
  smoothstep over \<open>[0, 0.1]\<close> and one minus a smoothstep over \<open>[0.7, 1]\<close> of
  \<open>r / maxRadius\<close>. It is \<open>0\<close> at \<open>r = 0\<close>, tends to \<open>0\<close> as \<open>r\<close> tends to
  \<open>maxRadius\<close> from below, and is largest in the interior: its value at
  \<open>0.4 * maxRadius\<close> is the maximum over all \<open>r\<close> and strictly exceeds the values at
  \<open>0.05 * maxRadius\<close> and \<open>0.95 * maxRadius\<close>.
\<close>

theorem alpha_profile:
  "alpha r = smoothstep 0.0 0.1 (r / maxRadius) * (1.0 - smoothstep 0.7 1.0 (r / maxRadius))
   \<and> alpha 0 = 0
   \<and> (alpha \<longlongrightarrow> 0) (at_left maxRadius)
   \<and> alpha (0.05 * maxRadius) < alpha (0.4 * maxRadius)
   \<and> alpha (0.95 * maxRadius) < alpha (0.4 * maxRadius)
   \<and> 0 < 0.4 * maxRadius \<and> 0.4 * maxRadius < maxRadius
   \<and> alpha r \<le> alpha (0.4 * maxRadius)"
proof -
  have product: "alpha r = smoothstep 0.0 0.1 (r / maxRadius) * (1.0 - smoothstep 0.7 1.0 (r / maxRadius))"
    by (simp add: alpha_def fadeIn_def fadeOut_def Let_def)
  have zero: "alpha 0 = 0"
    by (simp add: alpha_unfold)
  have low: "alpha (0.05 * maxRadius) = 1 / 2"
    by (simp add: alpha_unfold)
  have mid: "alpha (0.4 * maxRadius) = 1"
    by (simp add: alpha_unfold)
  have high: "alpha (0.95 * maxRadius) = 2 / 27"
    by (simp add: alpha_unfold)
  have inside: "0 < 0.4 * maxRadius \<and> 0.4 * maxRadius < maxRadius"
    by (simp add: maxRadius_def)
  have top: "alpha r \<le> alpha (0.4 * maxRadius)"
    unfolding mid by (rule alpha_le_1)
  show ?thesis
    using product zero alpha_tendsto inside top unfolding low mid high by simp
qed

section \<open>Gesture detections\<close>

lemma at_index_Some: "i < length xs \<Longrightarrow> at_index xs i = Some (xs ! i)"
  by (simp add: at_index_def)

text \<open>
  A detection step: the landmarker and the video are there and the video shows a frame
  whose time differs from the stored one. With a landmark set of at least ten points
  the call runs to its end.
\<close>

lemma predictWebcam_hand:
  assumes "handLandmarker s" "videoRef s" "currentTime f \<noteq> lastVideoTime s"
    and "landmarks (results f) = Some (lms # others)" "9 < length lms"
  shows "predictWebcam f s =
    Returned (s\<lparr>lastVideoTime := currentTime f, detectCalls := Suc (detectCalls s),
       status := HAND_LOCKED, statusLog := statusLog s @ [HAND_LOCKED],
       targetScale := scaleOfPinch (pinchDist (lms ! 4) (lms ! 8)),
       targetTiltY := (lm_x (lms ! 9) - 0.5) * - 3.0,
       targetTiltX := (lm_y (lms ! 9) - 0.5) * 3.0,
       predictPending := Suc (predictPending s)\<rparr>)"
  using assms
  by (simp add: predictWebcam_def at_index_Some setStatus_def requestPredict_def Let_def)

lemma predictWebcam_none:
  assumes "handLandmarker s" "videoRef s" "currentTime f \<noteq> lastVideoTime s"
    and "landmarks (results f) = None \<or> landmarks (results f) = Some []"
  shows "predictWebcam f s =
    Returned (s\<lparr>lastVideoTime := currentTime f, detectCalls := Suc (detectCalls s),
       status := SCANNING, statusLog := statusLog s @ [SCANNING],
       predictPending := Suc (predictPending s)\<rparr>)"
  using assms
  by (auto simp add: predictWebcam_def setStatus_def requestPredict_def Let_def)

lemma scaleOfPinch_values:
  "scaleOfPinch 0.02 = 0.5" "scaleOfPinch 0.3 = 5.0" "0.3 \<le> d \<Longrightarrow> scaleOfPinch d = 5.0"
  "d \<le> 0.02 \<Longrightarrow> scaleOfPinch d = 0.5"
  by (simp_all add: scaleOfPinch_def clampDist_def)

lemma scaleOfPinch_range: "0.5 \<le> scaleOfPinch d \<and> scaleOfPinch d \<le> 5.0"
proof -
  have c: "0.02 \<le> clampDist d" "clampDist d \<le> 0.3"
    by (simp_all add: clampDist_def)
  have "scaleOfPinch d = (28 + 900 * (clampDist d - 0.02)) / 56"
    by (simp add: scaleOfPinch_def field_simps)
  with c show ?thesis
    by simp
qed

lemma ready_fields:
  "handLandmarker ready" "videoRef ready" "lastVideoTime ready = - 1"
  "targetScale ready = 1" "targetTiltX ready = 0" "targetTiltY ready = 0"
  "loadedDataListener ready" "predictPending ready = 0" "statusLog ready = []"
  "detectCalls ready = 0" "status ready = INITIALIZING"
  by (simp_all add: ready_def mount_def initial_def animate_def startVision_def Let_def)

lemma hand_fields:
  "length (hand pinch px py) = 21"
  "hand pinch px py ! 4 = landmark pinch 0"
  "hand pinch px py ! 8 = landmark 0 0"
  "hand pinch px py ! 9 = landmark px py"
  by (simp_all add: hand_def)

lemma pinchDist_hand: "pinchDist (landmark pinch 0) (landmark 0 0) = \<bar>pinch\<bar>"
  by (simp add: pinchDist_def landmark_def)

lemma frame_fields:
  "currentTime (frame_with t lms) = t" "landmarks (results (frame_with t lms)) = Some (lms # [])"
  "currentTime (frame_without t) = t" "landmarks (results (frame_without t)) = Some []"
  by (simp_all add: frame_with_def frame_without_def)

lemma predictWebcam_pinch:
  assumes "handLandmarker s" "videoRef s" "currentTime f \<noteq> lastVideoTime s"
    and "landmarks (results f) = Some (lms # others)" "8 < length lms"
  shows "targetScale (state_of (predictWebcam f s)) = scaleOfPinch (pinchDist (lms ! 4) (lms ! 8))"
  using assms
  by (simp add: predictWebcam_def at_index_Some setStatus_def requestPredict_def Let_def
      split: option.split)

lemma pinching_hand_fields:
  "length (pinching_hand tx ty ix iy) = 21"
  "lm_x (pinching_hand tx ty ix iy ! 4) = tx" "lm_y (pinching_hand tx ty ix iy ! 4) = ty"
  "lm_x (pinching_hand tx ty ix iy ! 8) = ix" "lm_y (pinching_hand tx ty ix iy ! 8) = iy"
  by (simp_all add: pinching_hand_def landmark_def)

lemma sample_distances:
  "sqrt ((0.512 - 0.5)\<^sup>2 + (0.516 - 0.5)\<^sup>2) = (0.02 :: real)"
  "sqrt ((0.56 - 0.5)\<^sup>2 + (0.58 - 0.5)\<^sup>2) = (0.1 :: real)"
  "sqrt ((0.68 - 0.5)\<^sup>2 + (0.74 - 0.5)\<^sup>2) = (0.3 :: real)"
  "sqrt ((0.8 - 0.5)\<^sup>2 + (0.9 - 0.5)\<^sup>2) = (0.5 :: real)"
  by (rule real_sqrt_unique; simp add: power2_eq_square)+

text \<open>
  C3 (amended). In a detection step whose result holds a landmark set (of at least nine
  points, so that the thumb tip, index 4, and the index fingertip, index 8, exist), the
  distance \<open>sqrt ((thumb.x - index.x)\<^sup>2 + (thumb.y - index.y)\<^sup>2)\<close> is clamped to
  \<open>[0.02, 0.30]\<close> and \<open>targetScale\<close> becomes \<open>0.5 + ((clampDist - 0.02) / 0.28) * 4.5\<close>.
  A distance of \<open>0.02\<close> gives \<open>0.5\<close>, also with every operation rounded. A distance of
  \<open>0.30\<close> gives the largest value, and every larger distance gives the same: it is
  \<open>5.0\<close> in exact arithmetic and \<open>5 - 2 ^ - 50\<close> with every operation rounded to a
  \<^verbatim>\<open>number\<close>.
\<close>

theorem pinch_to_scale:
  assumes "handLandmarker s" "videoRef s" "currentTime f \<noteq> lastVideoTime s"
    and "landmarks (results f) = Some (lms # others)" "8 < length lms"
  shows "targetScale (state_of (predictWebcam f s)) =
           0.5 + ((max 0.02 (min 0.3
             (sqrt ((lm_x (lms ! 4) - lm_x (lms ! 8))\<^sup>2 + (lm_y (lms ! 4) - lm_y (lms ! 8))\<^sup>2)))
               - 0.02) / 0.28) * 4.5
       \<and> (sqrt ((lm_x (lms ! 4) - lm_x (lms ! 8))\<^sup>2 + (lm_y (lms ! 4) - lm_y (lms ! 8))\<^sup>2) = 0.02
            \<longrightarrow> targetScale (state_of (predictWebcam f s)) = 0.5)
       \<and> (sqrt ((lm_x (lms ! 4) - lm_x (lms ! 8))\<^sup>2 + (lm_y (lms ! 4) - lm_y (lms ! 8))\<^sup>2) = 0.3
            \<longrightarrow> targetScale (state_of (predictWebcam f s)) = 5.0)
       \<and> (0.3 < sqrt ((lm_x (lms ! 4) - lm_x (lms ! 8))\<^sup>2 + (lm_y (lms ! 4) - lm_y (lms ! 8))\<^sup>2)
            \<longrightarrow> targetScale (state_of (predictWebcam f s)) = 0.5 + ((0.3 - 0.02) / 0.28) * 4.5)
       \<and> (d \<le> binary64 0.02 \<longrightarrow> scaleOfPinch64 d = 0.5)
       \<and> (binary64 0.3 \<le> d \<longrightarrow> scaleOfPinch64 d = 5 - 1 / 2 ^ 50)"
proof -
  have "targetScale (state_of (predictWebcam f s)) = scaleOfPinch (pinchDist (lms ! 4) (lms ! 8))"
    by (rule predictWebcam_pinch[OF assms])
  then have exact: "targetScale (state_of (predictWebcam f s)) =
           0.5 + ((max 0.02 (min 0.3
             (sqrt ((lm_x (lms ! 4) - lm_x (lms ! 8))\<^sup>2 + (lm_y (lms ! 4) - lm_y (lms ! 8))\<^sup>2)))
               - 0.02) / 0.28) * 4.5"
    by (simp add: scaleOfPinch_def clampDist_def pinchDist_def)
  have top: "scaleOfPinch64 d = 5 - 1 / 2 ^ 50" if "binary64 0.3 \<le> d"
    using scaleOfPinch64_top[OF that] by simp
  show ?thesis
    unfolding exact using scaleOfPinch64_bottom[of d] top by auto
qed

theorem pinch_to_scale_witness:
  "targetScale (state_of (predictWebcam (frame_with 0 (pinching_hand 0.512 0.516 0.5 0.5)) ready)) = 0.5
   \<and> targetScale (state_of (predictWebcam (frame_with 0 (pinching_hand 0.56 0.58 0.5 0.5)) ready)) = 25 / 14
   \<and> targetScale (state_of (predictWebcam (frame_with 0 (pinching_hand 0.68 0.74 0.5 0.5)) ready)) = 5.0
   \<and> targetScale (state_of (predictWebcam (frame_with 0 (pinching_hand 0.8 0.9 0.5 0.5)) ready)) = 5.0
   \<and> scaleOfPinch64 (binary64 0.02) = 0.5
   \<and> scaleOfPinch64 (1 / 2) = 5 - 1 / 2 ^ 50"
proof -
  have le: "binary64 0.3 \<le> 1 / 2"
    unfolding binary64_constants by simp
  have a: "targetScale (state_of (predictWebcam (frame_with 0 (pinching_hand 0.512 0.516 0.5 0.5)) ready)) = 0.5"
    using pinch_to_scale[of ready "frame_with 0 (pinching_hand 0.512 0.516 0.5 0.5)"
        "pinching_hand 0.512 0.516 0.5 0.5" "[]"]
    by (simp only: ready_fields frame_fields pinching_hand_fields sample_distances) simp
  have b: "targetScale (state_of (predictWebcam (frame_with 0 (pinching_hand 0.56 0.58 0.5 0.5)) ready)) = 25 / 14"
    using pinch_to_scale[of ready "frame_with 0 (pinching_hand 0.56 0.58 0.5 0.5)"
        "pinching_hand 0.56 0.58 0.5 0.5" "[]"]
    by (simp only: ready_fields frame_fields pinching_hand_fields sample_distances) simp
  have c: "targetScale (state_of (predictWebcam (frame_with 0 (pinching_hand 0.68 0.74 0.5 0.5)) ready)) = 5.0"
    using pinch_to_scale[of ready "frame_with 0 (pinching_hand 0.68 0.74 0.5 0.5)"
        "pinching_hand 0.68 0.74 0.5 0.5" "[]"]
    by (simp only: ready_fields frame_fields pinching_hand_fields sample_distances) simp
  have d: "targetScale (state_of (predictWebcam (frame_with 0 (pinching_hand 0.8 0.9 0.5 0.5)) ready)) = 5.0"
    using pinch_to_scale[of ready "frame_with 0 (pinching_hand 0.8 0.9 0.5 0.5)"
        "pinching_hand 0.8 0.9 0.5 0.5" "[]"]
    by (simp only: ready_fields frame_fields pinching_hand_fields sample_distances) simp
  have e: "scaleOfPinch64 (binary64 0.02) = 0.5"
    using pinch_to_scale[of ready "frame_with 0 (pinching_hand 0.8 0.9 0.5 0.5)"
        "pinching_hand 0.8 0.9 0.5 0.5" "[]" "binary64 0.02"]
    by (simp add: ready_fields frame_fields pinching_hand_fields)
  have f: "scaleOfPinch64 (1 / 2) = 5 - 1 / 2 ^ 50"
    using le pinch_to_scale[of ready "frame_with 0 (pinching_hand 0.8 0.9 0.5 0.5)"
        "pinching_hand 0.8 0.9 0.5 0.5" "[]" "1 / 2"]
    by (simp add: ready_fields frame_fields pinching_hand_fields)
  show ?thesis
    using a b c d e f by blast
qed

text \<open>
  With every operation rounded, the clamped distance \<open>0.30\<close> does not give \<open>5.0\<close>:
\<close>

theorem pinch_top_counterexample:
  "\<not> scaleOfPinch64 (binary64 0.3) = 5.0 \<and> \<not> scaleOfPinch64 (1 / 2) = 5.0"
proof -
  have le: "binary64 0.3 \<le> 1 / 2"
    unfolding binary64_constants by simp
  have "scaleOfPinch64 (binary64 0.3) = 5629499534213119 / 2 ^ 50"
    by (rule scaleOfPinch64_top) simp
  moreover have "scaleOfPinch64 (1 / 2) = 5629499534213119 / 2 ^ 50"
    using le by (rule scaleOfPinch64_top)
  ultimately show ?thesis
    by simp
qed

text \<open>
  C9. In a detection step whose result holds a landmark set (of at least ten points),
  the palm centre, landmark 9, sets \<open>targetTiltY = (x - 0.5) * (-3.0)\<close> and
  \<open>targetTiltX = (y - 0.5) * 3.0\<close>.
\<close>

theorem palm_to_tilt:
  assumes "handLandmarker s" "videoRef s" "currentTime f \<noteq> lastVideoTime s"
    and "landmarks (results f) = Some (lms # others)" "9 < length lms"
  shows "targetTiltY (state_of (predictWebcam f s)) = (lm_x (lms ! 9) - 0.5) * (- 3.0)
       \<and> targetTiltX (state_of (predictWebcam f s)) = (lm_y (lms ! 9) - 0.5) * 3.0"
  by (simp add: predictWebcam_hand[OF assms])

theorem palm_to_tilt_witness:
  "targetTiltY (state_of (predictWebcam (frame_with 0 (hand 0.1 0.75 0.25)) ready)) = - 0.75
   \<and> targetTiltX (state_of (predictWebcam (frame_with 0 (hand 0.1 0.75 0.25)) ready)) = - 0.75"
  using palm_to_tilt[of ready "frame_with 0 (hand 0.1 0.75 0.25)" "hand 0.1 0.75 0.25" "[]"]
  by (simp add: ready_fields hand_fields frame_fields landmark_def)

text \<open>
  C6. In a detection step whose result holds no landmark set (the field is missing or
  the list is empty), \<open>targetScale\<close>, \<open>targetTiltX\<close> and \<open>targetTiltY\<close> keep their
  values. The call returns; besides the status (and its log) it changes only the
  stored video time, the count of detector calls and the pending frame request.
\<close>

theorem no_landmarks_hold_targets:
  assumes "handLandmarker s" "videoRef s" "currentTime f \<noteq> lastVideoTime s"
    and "landmarks (results f) = None \<or> landmarks (results f) = Some []"
  shows "targetScale (state_of (predictWebcam f s)) = targetScale s
       \<and> targetTiltX (state_of (predictWebcam f s)) = targetTiltX s
       \<and> targetTiltY (state_of (predictWebcam f s)) = targetTiltY s
       \<and> status (state_of (predictWebcam f s)) = SCANNING
       \<and> predictWebcam f s =
           Returned (s\<lparr>lastVideoTime := currentTime f, detectCalls := Suc (detectCalls s),
             status := SCANNING, statusLog := statusLog s @ [SCANNING],
             predictPending := Suc (predictPending s)\<rparr>)"
  by (simp add: predictWebcam_none[OF assms])

theorem no_landmarks_hold_targets_witness:
  "targetScale (state_of (predictWebcam (frame_without 0) ready)) = 1
   \<and> targetTiltX (state_of (predictWebcam (frame_without 0) ready)) = 0
   \<and> targetTiltY (state_of (predictWebcam (frame_without 0) ready)) = 0
   \<and> status (state_of (predictWebcam (frame_without 0) ready)) = SCANNING"
  using no_landmarks_hold_targets[of ready "frame_without 0"]
  by (simp add: ready_fields frame_fields)

section \<open>Smoothing\<close>

lemma lerpStep_residual: "lerpStep target c - target = 0.9 * (c - target)"
  by (simp add: lerpStep_def lerpFactor_def field_simps)

lemma lerp_iter_residual: "(lerpStep target ^^ n) c - target = 0.9 ^ n * (c - target)"
proof (induction n)
  case 0
  show ?case by simp
next
  case (Suc n)
  have "(lerpStep target ^^ Suc n) c - target = 0.9 * ((lerpStep target ^^ n) c - target)"
    by (simp add: lerpStep_residual)
  also have "\<dots> = 0.9 ^ Suc n * (c - target)"
    by (simp add: Suc.IH)
  finally show ?case .
qed

lemma lerp_iter_abs: "\<bar>(lerpStep target ^^ n) c - target\<bar> = 0.9 ^ n * \<bar>c - target\<bar>"
  by (simp add: lerp_iter_residual abs_mult)

lemma pow65: "(1 / 1000 :: real) < 0.9 ^ 65" by (simp add: power_divide)
lemma pow66: "(0.9 :: real) ^ 66 < 1 / 1000" by (simp add: power_divide)

lemma pow_ge66: "66 \<le> n \<Longrightarrow> (0.9::real) ^ n < 1 / 1000"
proof -
  assume "66 \<le> n"
  then have "(0.9::real) ^ n \<le> 0.9 ^ 66"
    by (intro power_decreasing) simp_all
  with pow66 show ?thesis by linarith
qed

lemma animate_frames_scale:
  "currentScale (run (map AnimateFrame ts) s) = (lerpStep (targetScale s) ^^ length ts) (currentScale s)
   \<and> targetScale (run (map AnimateFrame ts) s) = targetScale s"
proof (induction ts arbitrary: s)
  case Nil
  show ?case by simp
next
  case (Cons t ts)
  have step: "currentScale (animate t s) = lerpStep (targetScale s) (currentScale s)"
     "targetScale (animate t s) = targetScale s"
    by (simp_all add: animate_def Let_def)
  show ?case
    by (simp add: Cons.IH step funpow_swap1)
qed

text \<open>
  C4 (amended). With a constant target the smoothing step
  \<^verbatim>\<open>current += (target - current) * 0.1\<close> multiplies the distance to the target by \<open>0.9\<close>
  in every frame: after \<open>n\<close> steps it is \<open>0.9 ^ n\<close> times the initial distance. The
  value moves towards the target monotonically and never passes it. From 66 steps on
  the distance is below one thousandth of the initial distance (\<open>0.9 ^ 66 < 0.001\<close>).
  A run of \<^verbatim>\<open>animate\<close> frames applies exactly these steps to \<open>currentScale\<close>.
\<close>

theorem smoothing_converges:
  "\<bar>(lerpStep target ^^ n) c - target\<bar> = 0.9 ^ n * \<bar>c - target\<bar>
   \<and> \<bar>(lerpStep target ^^ Suc n) c - target\<bar> \<le> \<bar>(lerpStep target ^^ n) c - target\<bar>
   \<and> (c \<le> target \<longrightarrow>
         (lerpStep target ^^ n) c \<le> (lerpStep target ^^ Suc n) c
         \<and> (lerpStep target ^^ Suc n) c \<le> target)
   \<and> (target \<le> c \<longrightarrow>
         target \<le> (lerpStep target ^^ Suc n) c
         \<and> (lerpStep target ^^ Suc n) c \<le> (lerpStep target ^^ n) c)
   \<and> (66 \<le> n \<longrightarrow> \<bar>(lerpStep target ^^ n) c - target\<bar> \<le> 1 / 1000 * \<bar>c - target\<bar>)
   \<and> (66 \<le> n \<and> c \<noteq> target \<longrightarrow>
         \<bar>(lerpStep target ^^ n) c - target\<bar> < 1 / 1000 * \<bar>c - target\<bar>)
   \<and> currentScale (run (map AnimateFrame ts) s)
       = (lerpStep (targetScale s) ^^ length ts) (currentScale s)"
proof -
  define x where "x = (lerpStep target ^^ n) c"
  define y where "y = (lerpStep target ^^ Suc n) c"
  have x: "x - target = 0.9 ^ n * (c - target)"
    unfolding x_def by (rule lerp_iter_residual)
  have absx: "\<bar>x - target\<bar> = 0.9 ^ n * \<bar>c - target\<bar>"
    unfolding x_def by (rule lerp_iter_abs)
  have y: "y - target = 0.9 * (x - target)"
    unfolding x_def y_def by (simp add: lerpStep_residual)
  have p: "0 < (0.9::real) ^ n"
    by simp
  have y': "y = (9 * x + target) / 10"
    using y by (simp add: field_simps)
  have shrink: "\<bar>y - target\<bar> \<le> \<bar>x - target\<bar>"
  proof -
    have e: "\<bar>0.9 * (x - target)\<bar> = 0.9 * \<bar>x - target\<bar>"
      unfolding abs_mult by simp
    have "0.9 * \<bar>x - target\<bar> \<le> 1 * \<bar>x - target\<bar>"
      by (intro mult_right_mono) simp_all
    then show ?thesis
      unfolding y e by simp
  qed
  have up: "x \<le> y \<and> y \<le> target" if "c \<le> target"
  proof -
    have "0.9 ^ n * (c - target) \<le> 0"
      using that p by (simp add: mult_le_0_iff)
    then have neg: "x - target \<le> 0"
      using x by simp
    have "x \<le> y"
      using neg unfolding y' by simp
    moreover have "y \<le> target"
      using neg unfolding y' by simp
    ultimately show ?thesis
      by (rule conjI)
  qed
  have down: "target \<le> y \<and> y \<le> x" if "target \<le> c"
  proof -
    have "0 \<le> 0.9 ^ n * (c - target)"
      using that p by simp
    then have pos: "0 \<le> x - target"
      using x by simp
    have "target \<le> y"
      using pos unfolding y' by simp
    moreover have "y \<le> x"
      using pos unfolding y' by simp
    ultimately show ?thesis
      by (rule conjI)
  qed
  have near: "\<bar>x - target\<bar> \<le> 1 / 1000 * \<bar>c - target\<bar>" if "66 \<le> n"
  proof -
    have "(0.9::real) ^ n \<le> 1 / 1000"
      using that pow_ge66 by fastforce
    then have "0.9 ^ n * \<bar>c - target\<bar> \<le> 1 / 1000 * \<bar>c - target\<bar>"
      by (intro mult_right_mono) simp_all
    then show ?thesis
      unfolding absx .
  qed
  have nearer: "\<bar>x - target\<bar> < 1 / 1000 * \<bar>c - target\<bar>" if "66 \<le> n \<and> c \<noteq> target"
  proof -
    have "(0.9::real) ^ n < 1 / 1000"
      using that pow_ge66 by simp
    moreover have "0 < \<bar>c - target\<bar>"
      using that by simp
    ultimately have "0.9 ^ n * \<bar>c - target\<bar> < 1 / 1000 * \<bar>c - target\<bar>"
      by (intro mult_strict_right_mono)
    then show ?thesis
      unfolding absx .
  qed
  have frames: "currentScale (run (map AnimateFrame ts) s)
       = (lerpStep (targetScale s) ^^ length ts) (currentScale s)"
    using animate_frames_scale[of ts s] by (rule conjunct1)
  have "\<bar>x - target\<bar> = 0.9 ^ n * \<bar>c - target\<bar>
   \<and> \<bar>y - target\<bar> \<le> \<bar>x - target\<bar>
   \<and> (c \<le> target \<longrightarrow> x \<le> y \<and> y \<le> target)
   \<and> (target \<le> c \<longrightarrow> target \<le> y \<and> y \<le> x)
   \<and> (66 \<le> n \<longrightarrow> \<bar>x - target\<bar> \<le> 1 / 1000 * \<bar>c - target\<bar>)
   \<and> (66 \<le> n \<and> c \<noteq> target \<longrightarrow> \<bar>x - target\<bar> < 1 / 1000 * \<bar>c - target\<bar>)"
    using absx shrink up down near nearer by blast
  then show ?thesis
    unfolding x_def y_def using frames by blast
qed

theorem smoothing_converges_witness:
  "\<bar>(lerpStep 1 ^^ 66) 0 - 1\<bar> = 0.9 ^ 66 * \<bar>0 - 1\<bar>
   \<and> (lerpStep 1 ^^ 66) 0 \<le> (lerpStep 1 ^^ Suc 66) 0
   \<and> (lerpStep 1 ^^ Suc 66) 0 \<le> 1
   \<and> \<bar>(lerpStep 1 ^^ 66) 0 - 1\<bar> < 1 / 1000"
  using smoothing_converges[where target = 1 and n = 66 and c = 0 and ts = "[]" and s = initial] by simp

text \<open>
  After 65 steps the distance is still above one thousandth of the initial distance:
  \<open>0.9 ^ 65\<close> is about \<open>0.00106\<close>. From \<open>current = 0\<close> towards \<open>target = 1\<close>:
\<close>

theorem smoothing_gap_counterexample:
  "\<not> \<bar>(lerpStep 1 ^^ 65) 0 - 1\<bar> < 1 / 1000 \<and> \<not> (0.9::real) ^ 65 < 1 / 1000"
proof -
  have "\<bar>(lerpStep 1 ^^ 65) 0 - 1\<bar> = 0.9 ^ 65"
    using lerp_iter_abs[where target = 1 and n = 65 and c = 0] by simp
  with pow65 show ?thesis by simp
qed

section \<open>The scale stays bounded\<close>

lemma lerpStep_between:
  assumes "lo \<le> target" "target \<le> hi" "lo \<le> c" "c \<le> hi"
  shows "lo \<le> lerpStep target c \<and> lerpStep target c \<le> hi"
proof -
  have "lerpStep target c = (9 * c + target) / 10"
    by (simp add: lerpStep_def lerpFactor_def field_simps)
  with assms show ?thesis
    by simp
qed

lemma animate_bounded: "scale_bounded s \<Longrightarrow> scale_bounded (animate now s)"
  using lerpStep_between[of "0.5" "targetScale s" "5.0" "currentScale s"]
  by (simp add: scale_bounded_def animate_def Let_def)

lemma predictWebcam_scales:
  "(targetScale (state_of (predictWebcam f s)) = targetScale s
      \<or> (\<exists>d. targetScale (state_of (predictWebcam f s)) = scaleOfPinch d))
   \<and> currentScale (state_of (predictWebcam f s)) = currentScale s
   \<and> groupScale (state_of (predictWebcam f s)) = groupScale s"
  by (auto simp add: predictWebcam_def setStatus_def requestPredict_def Let_def
      split: option.splits list.splits)


lemma predictWebcam_bounded:
  assumes "scale_bounded s"
  shows "scale_bounded (state_of (predictWebcam f s))"
proof -
  from predictWebcam_scales[of f s]
  have "0.5 \<le> targetScale (state_of (predictWebcam f s))
        \<and> targetScale (state_of (predictWebcam f s)) \<le> 5.0"
    using assms scaleOfPinch_range by (auto simp add: scale_bounded_def)
  with predictWebcam_scales[of f s] assms show ?thesis
    by (simp add: scale_bounded_def)
qed

lemma setStatus_bounded: "scale_bounded (setStatus v s) = scale_bounded s"
  by (simp add: scale_bounded_def setStatus_def)

lemma startVision_bounded: "scale_bounded s \<Longrightarrow> scale_bounded (startVision a s)"
  by (cases a) (simp_all add: startVision_def scale_bounded_def setStatus_def Let_def)

lemma dispatch_bounded:
  assumes "scale_bounded s"
  shows "scale_bounded (dispatch e s)"
proof (cases e)
  case (VisionSettled a)
  have "scale_bounded (s\<lparr>visionPending := False\<rparr>)"
    using assms by (simp add: scale_bounded_def)
  then show ?thesis
    using assms VisionSettled by (simp add: startVision_bounded)
next
  case (LoadedData f)
  have "scale_bounded (setStatus SYSTEM_READY (s\<lparr>isLoading := False\<rparr>))"
    using assms by (simp add: scale_bounded_def setStatus_def)
  then show ?thesis
    using assms LoadedData by (simp add: onLoadedData_def predictWebcam_bounded)
next
  case (PredictFrame f)
  have "scale_bounded (s\<lparr>predictPending := predictPending s - 1\<rparr>)"
    using assms by (simp add: scale_bounded_def)
  then show ?thesis
    using assms PredictFrame by (simp add: predictWebcam_bounded)
next
  case (AnimateFrame now)
  then show ?thesis
    using assms by (simp add: animate_bounded)
qed

lemma run_bounded: "scale_bounded s \<Longrightarrow> scale_bounded (run es s)"
  by (induction es arbitrary: s) (simp_all add: dispatch_bounded)

lemma mount_bounded: "scale_bounded (mount now)"
  by (simp add: mount_def initial_def animate_def lerpStep_def lerpFactor_def scale_bounded_def Let_def)

text \<open>
  C10. \<open>currentScale\<close> and \<open>targetScale\<close> start at \<open>1.0\<close>. Whatever callbacks run after
  mounting (the settlement of \<^verbatim>\<open>startVision\<close>, \<^verbatim>\<open>loadeddata\<close>, detection cycles,
  render frames, in any order and with any detector results), \<open>currentScale\<close>, the scale
  applied to the manipulation group and \<open>targetScale\<close> stay in \<open>[0.5, 5.0]\<close>.
\<close>

theorem scale_stays_in_range:
  "0.5 \<le> currentScale (run es (mount now)) \<and> currentScale (run es (mount now)) \<le> 5.0
   \<and> 0.5 \<le> groupScale (run es (mount now)) \<and> groupScale (run es (mount now)) \<le> 5.0
   \<and> 0.5 \<le> targetScale (run es (mount now)) \<and> targetScale (run es (mount now)) \<le> 5.0
   \<and> currentScale initial = 1.0 \<and> targetScale initial = 1.0"
  using run_bounded[OF mount_bounded, of es now]
  by (simp add: scale_bounded_def initial_def)

section \<open>The status\<close>

lemma dispatch_halted:
  assumes "halted s"
  shows "halted (dispatch e s) \<and> status (dispatch e s) = status s
         \<and> statusLog (dispatch e s) = statusLog s"
  using assms by (cases e) (simp_all add: halted_def animate_def Let_def)

lemma run_halted:
  "halted s \<Longrightarrow> status (run es s) = status s \<and> statusLog (run es s) = statusLog s"
proof (induction es arbitrary: s)
  case Nil
  show ?case by simp
next
  case (Cons e es)
  from dispatch_halted[OF Cons.prems, of e] Cons.IH[of "dispatch e s"]
  show ?case by simp
qed

lemma failed_halted:
  assumes "a \<noteq> StreamAcquired"
  shows "halted (dispatch (VisionSettled a) (mount now))"
    and "status (dispatch (VisionSettled a) (mount now)) = CAMERA_ERROR"
    and "statusLog (dispatch (VisionSettled a) (mount now)) = [CAMERA_ERROR]"
  using assms
  by (cases a; simp add: halted_def mount_def initial_def animate_def startVision_def setStatus_def Let_def)+

lemma predictWebcam_status:
  assumes "handLandmarker s" "videoRef s" "currentTime f \<noteq> lastVideoTime s"
  shows "status (state_of (predictWebcam f s)) =
           (case landmarks (results f) of Some (lms # others) \<Rightarrow> HAND_LOCKED | _ \<Rightarrow> SCANNING)"
  using assms
  by (auto simp add: predictWebcam_def setStatus_def requestPredict_def Let_def
      split: option.splits list.splits)

lemma status_distinct:
  "distinct [INITIALIZING, SYSTEM_READY, CAMERA_ERROR, HAND_LOCKED, SCANNING]"
  by (simp add: INITIALIZING_def SYSTEM_READY_def CAMERA_ERROR_def HAND_LOCKED_def SCANNING_def)

lemma mount_fields:
  "status (mount now) = INITIALIZING" "statusLog (mount now) = []" "visionPending (mount now)"
  "videoRef (mount now)" "lastVideoTime (mount now) = - 1" "predictPending (mount now) = 0"
  "\<not> loadedDataListener (mount now)" "\<not> handLandmarker (mount now)" "detectCalls (mount now) = 0"
  by (simp_all add: mount_def initial_def animate_def Let_def)

lemma acquired_fields:
  "status (dispatch (VisionSettled StreamAcquired) (mount now)) = INITIALIZING"
  "statusLog (dispatch (VisionSettled StreamAcquired) (mount now)) = []"
  "videoRef (dispatch (VisionSettled StreamAcquired) (mount now))"
  "handLandmarker (dispatch (VisionSettled StreamAcquired) (mount now))"
  "loadedDataListener (dispatch (VisionSettled StreamAcquired) (mount now))"
  "lastVideoTime (dispatch (VisionSettled StreamAcquired) (mount now)) = - 1"
  "predictPending (dispatch (VisionSettled StreamAcquired) (mount now)) = 0"
  by (simp_all add: mount_fields startVision_def Let_def)

lemma status_sequence:
  assumes no1: "landmarks (results f1) = None \<or> landmarks (results f1) = Some []"
    and have2: "landmarks (results f2) = Some (lms # others)" "9 < length lms"
    and no3: "landmarks (results f3) = None \<or> landmarks (results f3) = Some []"
    and times: "currentTime f1 \<noteq> - 1" "currentTime f2 \<noteq> currentTime f1"
      "currentTime f3 \<noteq> currentTime f2"
  shows "statusLog (run [VisionSettled StreamAcquired, LoadedData f1, PredictFrame f2, PredictFrame f3]
            (mount now)) = [SYSTEM_READY, SCANNING, HAND_LOCKED, SCANNING]"
proof -
  define s0 where "s0 = dispatch (VisionSettled StreamAcquired) (mount now)"
  have s0: "handLandmarker s0" "videoRef s0" "lastVideoTime s0 = - 1" "statusLog s0 = []"
    "predictPending s0 = 0" "loadedDataListener s0"
    unfolding s0_def by (simp_all only: acquired_fields)
  define s0' where "s0' = setStatus SYSTEM_READY (s0\<lparr>isLoading := False\<rparr>)"
  have s0': "handLandmarker s0'" "videoRef s0'" "currentTime f1 \<noteq> lastVideoTime s0'"
    "statusLog s0' = [SYSTEM_READY]" "predictPending s0' = 0"
    using times by (simp_all add: s0'_def s0 setStatus_def)
  define s1 where "s1 = dispatch (LoadedData f1) s0"
  have "s1 = state_of (predictWebcam f1 s0')"
    by (simp add: s1_def s0'_def s0 onLoadedData_def)
  then have s1: "handLandmarker s1" "videoRef s1" "lastVideoTime s1 = currentTime f1"
    "statusLog s1 = [SYSTEM_READY, SCANNING]" "predictPending s1 = 1"
    using s0' by (simp_all add: predictWebcam_none[OF s0'(1,2,3) no1])
  define s1' where "s1' = s1\<lparr>predictPending := predictPending s1 - 1\<rparr>"
  have s1': "handLandmarker s1'" "videoRef s1'" "currentTime f2 \<noteq> lastVideoTime s1'"
    "statusLog s1' = [SYSTEM_READY, SCANNING]" "predictPending s1' = 0"
    using times s1 by (simp_all add: s1'_def)
  define s2 where "s2 = dispatch (PredictFrame f2) s1"
  have "s2 = state_of (predictWebcam f2 s1')"
    by (simp add: s2_def s1'_def s1)
  then have s2: "handLandmarker s2" "videoRef s2" "lastVideoTime s2 = currentTime f2"
    "statusLog s2 = [SYSTEM_READY, SCANNING, HAND_LOCKED]" "predictPending s2 = 1"
    using s1' by (simp_all add: predictWebcam_hand[OF s1'(1,2,3) have2])
  define s2' where "s2' = s2\<lparr>predictPending := predictPending s2 - 1\<rparr>"
  have s2': "handLandmarker s2'" "videoRef s2'" "currentTime f3 \<noteq> lastVideoTime s2'"
    "statusLog s2' = [SYSTEM_READY, SCANNING, HAND_LOCKED]"
    using times s2 by (simp_all add: s2'_def)
  define s3 where "s3 = dispatch (PredictFrame f3) s2"
  have "s3 = state_of (predictWebcam f3 s2')"
    by (simp add: s3_def s2'_def s2)
  then have "statusLog s3 = [SYSTEM_READY, SCANNING, HAND_LOCKED, SCANNING]"
    using s2' by (simp add: predictWebcam_none[OF s2'(1,2,3) no3])
  then show ?thesis
    by (simp add: s3_def s2_def s1_def s0_def)
qed


lemma predictWebcam_log:
  "\<exists>vs. statusLog (state_of (predictWebcam f s)) = statusLog s @ vs"
  by (auto simp add: predictWebcam_def setStatus_def requestPredict_def Let_def
      split: option.splits list.splits)

lemma first_frame_ready:
  "take 1 (statusLog (run [VisionSettled StreamAcquired, LoadedData f] (mount now))) = [SYSTEM_READY]"
proof -
  define s0 where "s0 = dispatch (VisionSettled StreamAcquired) (mount now)"
  have s0: "statusLog s0 = []" "loadedDataListener s0"
    unfolding s0_def by (simp_all only: acquired_fields)
  define s0' where "s0' = setStatus SYSTEM_READY (s0\<lparr>isLoading := False\<rparr>)"
  have log: "statusLog s0' = [SYSTEM_READY]"
    by (simp add: s0'_def s0 setStatus_def)
  obtain vs where "statusLog (state_of (predictWebcam f s0')) = statusLog s0' @ vs"
    using predictWebcam_log by blast
  then have "take 1 (statusLog (dispatch (LoadedData f) s0)) = [SYSTEM_READY]"
    by (simp add: s0 onLoadedData_def s0'_def[symmetric] log)
  then show ?thesis
    by (simp add: s0_def)
qed

text \<open>
  C7. The five status values are distinct. The status starts as \<open>INITIALIZING\<close>. When
  the stream delivers its first frame the first value written is \<open>SYSTEM_READY\<close>. When
  acquisition fails the status becomes \<open>CAMERA_ERROR\<close> and no later callback writes a
  status again. A detection step sets \<open>HAND_LOCKED\<close> when the result holds at least one
  landmark set and \<open>SCANNING\<close> when it holds none. The sequence stream ok, no landmarks,
  landmarks, no landmarks (on frames with changing time stamps) writes
  \<open>SYSTEM_READY\<close>, \<open>SCANNING\<close>, \<open>HAND_LOCKED\<close>, \<open>SCANNING\<close>.
\<close>

theorem status_machine:
  "distinct [INITIALIZING, SYSTEM_READY, CAMERA_ERROR, HAND_LOCKED, SCANNING]
   \<and> status (mount now) = INITIALIZING
   \<and> take 1 (statusLog (run [VisionSettled StreamAcquired, LoadedData f0] (mount now)))
       = [SYSTEM_READY]
   \<and> (a \<noteq> StreamAcquired \<longrightarrow>
         status (run es (dispatch (VisionSettled a) (mount now))) = CAMERA_ERROR
         \<and> statusLog (run es (dispatch (VisionSettled a) (mount now))) = [CAMERA_ERROR])
   \<and> (handLandmarker s \<and> videoRef s \<and> currentTime f \<noteq> lastVideoTime s \<longrightarrow>
         status (state_of (predictWebcam f s)) =
           (case landmarks (results f) of Some (lms # others) \<Rightarrow> HAND_LOCKED | _ \<Rightarrow> SCANNING))
   \<and> ((landmarks (results f1) = None \<or> landmarks (results f1) = Some [])
        \<and> landmarks (results f2) = Some (lms2 # others2) \<and> 9 < length lms2
        \<and> (landmarks (results f3) = None \<or> landmarks (results f3) = Some [])
        \<and> currentTime f1 \<noteq> - 1 \<and> currentTime f2 \<noteq> currentTime f1
        \<and> currentTime f3 \<noteq> currentTime f2 \<longrightarrow>
         statusLog (run [VisionSettled StreamAcquired, LoadedData f1, PredictFrame f2,
                         PredictFrame f3] (mount now))
           = [SYSTEM_READY, SCANNING, HAND_LOCKED, SCANNING])"
proof -
  have terminal: "status (run es (dispatch (VisionSettled a) (mount now))) = CAMERA_ERROR
         \<and> statusLog (run es (dispatch (VisionSettled a) (mount now))) = [CAMERA_ERROR]"
    if "a \<noteq> StreamAcquired"
    using run_halted[OF failed_halted(1)[OF that], of es now] failed_halted(2,3)[OF that, of now]
    by simp
  show ?thesis
    using status_distinct mount_fields(1)[of now] first_frame_ready[of f0 now] terminal
      predictWebcam_status[of s f] status_sequence[of f1 f2 lms2 others2 f3 now]
    by blast
qed

theorem status_machine_witness:
  "status (run [LoadedData (frame_without 0), PredictFrame (frame_with 1 (hand 0.1 0.5 0.5)),
                AnimateFrame 16]
             (dispatch (VisionSettled StreamFailed) (mount 0))) = CAMERA_ERROR
   \<and> status (state_of (predictWebcam (frame_with 0 (hand 0.1 0.5 0.5)) ready)) = HAND_LOCKED
   \<and> status (state_of (predictWebcam (frame_without 0) ready)) = SCANNING
   \<and> statusLog (run [VisionSettled StreamAcquired, LoadedData (frame_without 0),
                      PredictFrame (frame_with 1 (hand 0.1 0.5 0.5)),
                      PredictFrame (frame_without 2)] (mount 0))
       = [SYSTEM_READY, SCANNING, HAND_LOCKED, SCANNING]"
proof -
  have "status (run [LoadedData (frame_without 0), PredictFrame (frame_with 1 (hand 0.1 0.5 0.5)),
                AnimateFrame 16]
             (dispatch (VisionSettled StreamFailed) (mount 0))) = CAMERA_ERROR"
    using status_machine[where a = StreamFailed and now = 0
        and es = "[LoadedData (frame_without 0), PredictFrame (frame_with 1 (hand 0.1 0.5 0.5)),
                AnimateFrame 16]"]
    by simp
  moreover have "status (state_of (predictWebcam (frame_with 0 (hand 0.1 0.5 0.5)) ready)) = HAND_LOCKED"
    using status_machine[where s = ready and f = "frame_with 0 (hand 0.1 0.5 0.5)"]
    by (simp add: ready_fields frame_fields)
  moreover have "status (state_of (predictWebcam (frame_without 0) ready)) = SCANNING"
    using status_machine[where s = ready and f = "frame_without 0"]
    by (simp add: ready_fields frame_fields)
  moreover have "statusLog (run [VisionSettled StreamAcquired, LoadedData (frame_without 0),
                      PredictFrame (frame_with 1 (hand 0.1 0.5 0.5)),
                      PredictFrame (frame_without 2)] (mount 0))
       = [SYSTEM_READY, SCANNING, HAND_LOCKED, SCANNING]"
    using status_machine[where now = 0 and ?f1.0 = "frame_without 0"
        and ?f2.0 = "frame_with 1 (hand 0.1 0.5 0.5)" and ?f3.0 = "frame_without 2"
        and ?lms2.0 = "hand 0.1 0.5 0.5" and ?others2.0 = "[]"]
    by (simp only: frame_fields hand_fields) simp
  ultimately show ?thesis
    by blast
qed

section \<open>Detection runs once for each frame\<close>

lemma predictWebcam_bookkeeping:
  assumes "handLandmarker s" "videoRef s"
  shows "lastVideoTime (state_of (predictWebcam f s)) = currentTime f"
    and "handLandmarker (state_of (predictWebcam f s))"
    and "videoRef (state_of (predictWebcam f s))"
    and "detectCalls (state_of (predictWebcam f s)) =
           (if currentTime f = lastVideoTime s then detectCalls s else Suc (detectCalls s))"
  using assms
  by (auto simp add: predictWebcam_def setStatus_def requestPredict_def Let_def
      split: option.splits list.splits)

lemma predictAll_calls:
  assumes "handLandmarker s" "videoRef s"
  shows "detectCalls (predictAll fs s) + 1 =
           detectCalls s + length (remdups_adj (lastVideoTime s # map currentTime fs))"
  using assms
proof (induction fs arbitrary: s)
  case Nil
  show ?case by simp
next
  case (Cons f fs)
  define s1 where "s1 = state_of (predictWebcam f s)"
  have s1: "lastVideoTime s1 = currentTime f" "handLandmarker s1" "videoRef s1"
    "detectCalls s1 = (if currentTime f = lastVideoTime s then detectCalls s else Suc (detectCalls s))"
    unfolding s1_def using predictWebcam_bookkeeping[OF Cons.prems] by blast+
  have "detectCalls (predictAll fs s1) + 1 =
          detectCalls s1 + length (remdups_adj (currentTime f # map currentTime fs))"
    using Cons.IH[OF s1(2,3)] by (simp add: s1(1))
  then show ?case
    by (simp add: s1_def[symmetric] s1(4))
qed

text \<open>
  C8 (amended). While the detection cycle runs (landmarker and video present), two
  consecutive invocations on an unchanged time stamp call the detector at most once:
  exactly once when the first of them meets a new frame (its time stamp differs from the
  stored one), and not at all when that frame was submitted before. In both cases the
  second invocation calls nothing, since the stored time stamp equals the current one.
  Over any sequence of invocations the number of calls is the number of places where
  the time stamp differs from the one before it (the stored one, for the first
  invocation).
\<close>

theorem detection_deduplicated:
  assumes "handLandmarker s" "videoRef s"
  shows "detectCalls (predictAll fs s) + 1 =
           detectCalls s + length (remdups_adj (lastVideoTime s # map currentTime fs))
       \<and> (currentTime f2 = currentTime f1 \<longrightarrow>
             lastVideoTime (predictAll [f1] s) = currentTime f2
             \<and> detectCalls (predictAll [f1, f2] s) = detectCalls (predictAll [f1] s))
       \<and> (currentTime f2 = currentTime f1 \<and> currentTime f1 \<noteq> lastVideoTime s \<longrightarrow>
             detectCalls (predictAll [f1, f2] s) = detectCalls s + 1)
       \<and> (currentTime f2 = currentTime f1 \<and> currentTime f1 = lastVideoTime s \<longrightarrow>
             detectCalls (predictAll [f1, f2] s) = detectCalls s)"
proof -
  define s1 where "s1 = state_of (predictWebcam f1 s)"
  have s1: "lastVideoTime s1 = currentTime f1" "handLandmarker s1" "videoRef s1"
    "detectCalls s1 = (if currentTime f1 = lastVideoTime s then detectCalls s else Suc (detectCalls s))"
    unfolding s1_def using predictWebcam_bookkeeping[OF assms] by blast+
  have second: "detectCalls (state_of (predictWebcam f2 s1)) =
      (if currentTime f2 = currentTime f1 then detectCalls s1 else Suc (detectCalls s1))"
    using predictWebcam_bookkeeping(4)[OF s1(2,3), of f2] by (simp add: s1(1))
  show ?thesis
    using predictAll_calls[OF assms, of fs] s1 second
    by (simp add: s1_def[symmetric])
qed

theorem detection_deduplicated_witness:
  "detectCalls (predictAll [frame_without 0, frame_without 0] ready) = 1
   \<and> detectCalls (predictAll [frame_without 0, frame_without 0, frame_without 0,
         frame_with 1 (hand 0.1 0.5 0.5), frame_with 1 (hand 0.1 0.5 0.5)] ready) = 2"
proof -
  have h: "handLandmarker ready" "videoRef ready"
    by (simp_all add: ready_fields)
  have "currentTime (frame_without 0) = currentTime (frame_without 0)
        \<and> currentTime (frame_without 0) \<noteq> lastVideoTime ready \<longrightarrow>
        detectCalls (predictAll [frame_without 0, frame_without 0] ready) = detectCalls ready + 1"
    using detection_deduplicated[OF h, where ?f1.0 = "frame_without 0"
        and ?f2.0 = "frame_without 0" and fs = "[]"]
    by blast
  then have pair: "detectCalls (predictAll [frame_without 0, frame_without 0] ready) = 1"
    by (simp add: ready_fields frame_fields)
  have "detectCalls (predictAll [frame_without 0, frame_without 0, frame_without 0,
         frame_with 1 (hand 0.1 0.5 0.5), frame_with 1 (hand 0.1 0.5 0.5)] ready) + 1
       = detectCalls ready + length (remdups_adj (lastVideoTime ready #
           map currentTime [frame_without 0, frame_without 0, frame_without 0,
         frame_with 1 (hand 0.1 0.5 0.5), frame_with 1 (hand 0.1 0.5 0.5)]))"
    using detection_deduplicated[OF h, where ?f1.0 = "frame_without 0"
        and ?f2.0 = "frame_without 0"]
    by blast
  then have "detectCalls (predictAll [frame_without 0, frame_without 0, frame_without 0,
         frame_with 1 (hand 0.1 0.5 0.5), frame_with 1 (hand 0.1 0.5 0.5)] ready) = 2"
    by (simp add: ready_fields frame_fields)
  with pair show ?thesis
    by (rule conjI)
qed

text \<open>
  After the first frame has been handled, two more invocations on the same time stamp
  call the detector not once but never:
\<close>

theorem detection_pair_counterexample:
  "detectCalls (predictAll [frame_without 0] ready) = 1
   \<and> detectCalls (predictAll [frame_without 0, frame_without 0]
         (predictAll [frame_without 0] ready))
       = detectCalls (predictAll [frame_without 0] ready)
   \<and> \<not> detectCalls (predictAll [frame_without 0, frame_without 0]
         (predictAll [frame_without 0] ready))
       = detectCalls (predictAll [frame_without 0] ready) + 1"
proof -
  define s1 where "s1 = state_of (predictWebcam (frame_without 0) ready)"
  have ready: "handLandmarker ready" "videoRef ready"
    by (simp_all add: ready_fields)
  have s1: "lastVideoTime s1 = 0" "handLandmarker s1" "videoRef s1" "detectCalls s1 = 1"
    unfolding s1_def using predictWebcam_bookkeeping[OF ready, of "frame_without 0"]
    by (simp_all add: frame_fields ready_fields)
  define s2 where "s2 = state_of (predictWebcam (frame_without 0) s1)"
  have s2: "lastVideoTime s2 = 0" "handLandmarker s2" "videoRef s2" "detectCalls s2 = 1"
    unfolding s2_def using predictWebcam_bookkeeping[OF s1(2,3), of "frame_without 0"]
    by (simp_all add: frame_fields s1)
  have s3: "detectCalls (state_of (predictWebcam (frame_without 0) s2)) = 1"
    using predictWebcam_bookkeeping(4)[OF s2(2,3), of "frame_without 0"]
    by (simp add: frame_fields s2)
  show ?thesis
    using s1(4) s3 by (simp add: s1_def[symmetric] s2_def[symmetric])
qed

section \<open>Sizes of the particle groups\<close>

lemma fillParticles_lengths:
  "length (directions (snd (fillParticles rnd cnt i k g)))
     = length (directions g) + 3 * (nat \<lceil>cnt\<rceil> - i)
   \<and> length (offsets (snd (fillParticles rnd cnt i k g)))
     = length (offsets g) + (nat \<lceil>cnt\<rceil> - i)
   \<and> length (speeds (snd (fillParticles rnd cnt i k g)))
     = length (speeds g) + (nat \<lceil>cnt\<rceil> - i)"
proof (induction rnd cnt i k g rule: fillParticles.induct)
  case (1 rnd cnt i k g)
  show ?case
  proof (cases "real i < cnt")
    case True
    then have "int i < \<lceil>cnt\<rceil>"
      by (simp add: less_ceiling_iff)
    then have less: "i < nat \<lceil>cnt\<rceil>"
      by linarith
    then have more: "nat \<lceil>cnt\<rceil> - i = Suc (nat \<lceil>cnt\<rceil> - Suc i)"
      by simp
    define g' where "g' = g\<lparr>directions := directions g @
              [sin (arccos (2 * rnd (k + 1) - 1)) * cos (2 * pi * rnd k),
               sin (arccos (2 * rnd (k + 1) - 1)) * sin (2 * pi * rnd k),
               cos (arccos (2 * rnd (k + 1) - 1))],
             offsets := offsets g @ [rnd (k + 2) * 6.0],
             speeds := speeds g @ [0.3 + rnd (k + 3) * 0.4]\<rparr>"
    have unfold: "fillParticles rnd cnt i k g = fillParticles rnd cnt (Suc i) (k + 4) g'"
      by (subst fillParticles.simps) (simp only: True if_True Let_def g'_def)
    have g': "length (directions g') = length (directions g) + 3"
        "length (offsets g') = length (offsets g) + 1"
        "length (speeds g') = length (speeds g) + 1"
      by (simp_all add: g'_def)
    have ih: "length (directions (snd (fillParticles rnd cnt (Suc i) (k + 4) g')))
           = length (directions g') + 3 * (nat \<lceil>cnt\<rceil> - Suc i)
         \<and> length (offsets (snd (fillParticles rnd cnt (Suc i) (k + 4) g')))
           = length (offsets g') + (nat \<lceil>cnt\<rceil> - Suc i)
         \<and> length (speeds (snd (fillParticles rnd cnt (Suc i) (k + 4) g')))
           = length (speeds g') + (nat \<lceil>cnt\<rceil> - Suc i)"
      using "1.IH"[OF True refl refl refl refl refl refl refl] by (simp only: g'_def)
    show ?thesis
      unfolding unfold using ih g' by (simp add: more)
  next
    case False
    then have "cnt \<le> of_int (int i)"
      by simp
    then have "\<lceil>cnt\<rceil> \<le> int i"
      by (rule ceiling_le)
    then have zero: "nat \<lceil>cnt\<rceil> - i = 0"
      by (simp only: diff_is_0_eq nat_le_iff)
    have "fillParticles rnd cnt i k g = (k, g)"
      by (subst fillParticles.simps) (simp only: False if_False)
    then show ?thesis
      by (simp add: zero)
  qed
qed

lemma group_size:
  "pointCount (snd (fillParticles rnd cnt 0 k \<lparr>directions = [], offsets = [], speeds = []\<rparr>))
     = nat \<lceil>cnt\<rceil>"
  by (simp add: pointCount_def fillParticles_lengths)

lemma buildGroups_sizes:
  "map pointCount (buildGroups rnd cnt k its) = replicate (length its) (nat \<lceil>cnt\<rceil>)"
proof (induction its arbitrary: k)
  case Nil
  show ?case by simp
next
  case (Cons it its)
  obtain k1 g where p:
    "fillParticles rnd cnt 0 k \<lparr>directions = [], offsets = [], speeds = []\<rparr> = (k1, g)"
    by (cases "fillParticles rnd cnt 0 k \<lparr>directions = [], offsets = [], speeds = []\<rparr>")
  have "pointCount g = nat \<lceil>cnt\<rceil>"
    using group_size[of rnd cnt k] by (simp add: p)
  then show ?case
    by (simp add: p Let_def Cons.IH)
qed

lemma items_length: "length items = 18"
  by (simp add: items_def)

text \<open>
  C5. \<^verbatim>\<open>count = 1400 / 18\<close> is not a whole number, and the loop runs while
  \<^verbatim>\<open>i < count\<close>, that is 78 times. Each of the 18 groups holds the same whole number
  of points, 78, whatever the random numbers are; together they hold 1404 points, which
  is not the 1400 of \<^verbatim>\<open>totalParticles\<close>.
\<close>

theorem group_counts_overshoot:
  "length (initScene rnd) = 18
   \<and> map pointCount (initScene rnd) = replicate 18 78
   \<and> sum_list (map pointCount (initScene rnd)) = 1404
   \<and> totalParticles = 1400
   \<and> real (sum_list (map pointCount (initScene rnd))) \<noteq> totalParticles"
proof -
  have sizes: "map pointCount (initScene rnd) = replicate 18 78"
    unfolding initScene_def buildGroups_sizes
    by (simp add: items_length totalParticles_def)
  have "length (map pointCount (initScene rnd)) = 18"
    unfolding sizes by simp
  then have len: "length (initScene rnd) = 18"
    by simp
  have total: "sum_list (map pointCount (initScene rnd)) = 1404"
    unfolding sizes by (simp add: sum_list_replicate)
  show ?thesis
    using len sizes total by (simp add: totalParticles_def)
qed

end
